theory Spec2Isabelle
  imports Main "HOL-Library.FSet" "HOL-Library.Word"
begin

section \<open>Session manager of the timekeep service\<close>

text \<open>
  A shallow embedding of \<^verbatim>\<open>cmd/service/internal/sessions\<close> and of the control
  requests handled in \<^verbatim>\<open>cmd/service/service_windows.go\<close>.

  The Go code runs under one mutex and performs its repository calls outside of it.
  The embedding is sequential: each exported method is one function from the state
  before the call to the state after it. What lives outside the package (the clock, the
  repositories, the operating system) is a parameter of the functions below, so every
  theorem holds for every behaviour of these collaborators, failures included.
\<close>

subsection \<open>Data\<close>

text \<open>
  A \<^verbatim>\<open>time.Time\<close> is an instant, counted in nanoseconds from Go's zero \<^verbatim>\<open>Time\<close>;
  the zero value of the struct field is \<open>0\<close>. \<^verbatim>\<open>error\<close> values carry their message.
\<close>

type_synonym time = int

datatype error = Error string

text \<open>
  \<^verbatim>\<open>type Tracked struct\<close>. \<^verbatim>\<open>PIDs map[int]struct{}\<close> is a finite set of process
  identifiers, \<^verbatim>\<open>len(t.PIDs)\<close> is \<open>fcard\<close>.
\<close>

record Tracked =
  Category :: string
  Project :: string
  PIDs :: "int fset"
  StartAt :: time
  LastSeen :: time

text \<open>The two literals \<^verbatim>\<open>&Tracked{...}\<close> of the source; unnamed fields are zero.\<close>

definition newTracked :: "string \<Rightarrow> string \<Rightarrow> Tracked" where
  "newTracked category project =
     \<lparr>Category = category, Project = project, PIDs = {||}, StartAt = 0, LastSeen = 0\<rparr>"

text \<open>
  The part of Go's \<^verbatim>\<open>time\<close> package the code uses. \<open>Now k\<close> is what the \<open>k\<close>-th call
  of \<^verbatim>\<open>time.Now()\<close> returns; \<open>SubSeconds e b\<close> is \<^verbatim>\<open>int64(e.Sub(b).Seconds())\<close>.
\<close>

record timepkg =
  Now :: "nat \<Rightarrow> time"
  SubSeconds :: "time \<Rightarrow> time \<Rightarrow> int"

text \<open>
  The repository interfaces (\<^verbatim>\<open>repository.ActiveRepository\<close>,
  \<^verbatim>\<open>repository.HistoryRepository\<close>, \<^verbatim>\<open>repository.ProgramRepository\<close>), with the
  methods the session manager calls. A method takes the database and returns the
  database after the call together with its \<^verbatim>\<open>error\<close> (\<open>None\<close> is \<^verbatim>\<open>nil\<close>). The
  parameter structs of package \<^verbatim>\<open>database\<close> are passed field by field.
\<close>

record 'db ActiveRepository =
  CreateActiveSession :: "'db \<Rightarrow> string \<Rightarrow> time \<Rightarrow> error option \<times> 'db"
  GetActiveSession :: "'db \<Rightarrow> string \<Rightarrow> error + time"
  RemoveActiveSession :: "'db \<Rightarrow> string \<Rightarrow> error option \<times> 'db"

record 'db HistoryRepository =
  AddToSessionHistory :: "'db \<Rightarrow> string \<Rightarrow> time \<Rightarrow> time \<Rightarrow> int \<Rightarrow> error option \<times> 'db"

record 'db ProgramRepository =
  UpdateLifetime :: "'db \<Rightarrow> string \<Rightarrow> int \<Rightarrow> error option \<times> 'db"

text \<open>Every repository call that is made is recorded, in order, with its arguments.\<close>

datatype call =
    CreateActiveSessionCall string time
  | GetActiveSessionCall string
  | RemoveActiveSessionCall string
  | AddToSessionHistoryCall string time time int
  | UpdateLifetimeCall string int

fun callName :: "call \<Rightarrow> string" where
  "callName (CreateActiveSessionCall n _) = n"
| "callName (GetActiveSessionCall n) = n"
| "callName (RemoveActiveSessionCall n) = n"
| "callName (AddToSessionHistoryCall n _ _ _) = n"
| "callName (UpdateLifetimeCall n _) = n"

text \<open>The lines written by \<^verbatim>\<open>logger.Printf\<close>, one constructor for each format string.\<close>

datatype log_msg =
    InfoAlreadyTracked int string
  | ErrCreateActive string error
  | InfoCreated string time
  | InfoAddedPID int string
  | InfoNoActiveSession string int
  | InfoNotTracked int string
  | ErrGetActive error
  | ErrHistory string error
  | ErrLifetime string error
  | ErrRemoveActive string error
  | InfoMoved string int
  | InfoAllGone string
  | InfoPausing
  | InfoResuming

text \<open>
  The state the methods act on: the \<^verbatim>\<open>Programs\<close> map of the \<^verbatim>\<open>SessionManager\<close>, the
  database behind the repositories, the log, the repository calls made so far and the
  number of clock readings taken so far. A \<^verbatim>\<open>nil\<close> map reads as the empty map, which
  is what \<^verbatim>\<open>NewSessionManager\<close> builds; the map never holds a \<^verbatim>\<open>nil\<close> pointer, since
  every store puts a fresh struct.
\<close>

record 'db world =
  Programs :: "string \<rightharpoonup> Tracked"
  db :: 'db
  logger :: "log_msg list"
  calls :: "call list"
  ticks :: nat

definition NewSessionManager :: "'db \<Rightarrow> 'db world" where
  "NewSessionManager d =
     \<lparr>Programs = Map.empty, db = d, logger = [], calls = [], ticks = 0\<rparr>"

subsection \<open>\<^verbatim>\<open>strings.ToLower\<close>\<close>

text \<open>
  Go lower-cases a string of ASCII bytes byte by byte, and returns it as it is when it
  has no upper-case letter. A string with a byte from \<open>0x80\<close> on goes through
  \<^verbatim>\<open>strings.Map(unicode.ToLower, s)\<close>, which is the parameter \<open>unicodeLower\<close>.
\<close>

definition isUpperASCII :: "char \<Rightarrow> bool" where
  "isUpperASCII c \<longleftrightarrow> 65 \<le> (of_char c :: nat) \<and> (of_char c :: nat) \<le> 90"

definition toLowerASCII :: "char \<Rightarrow> char" where
  "toLowerASCII c = (if isUpperASCII c then char_of ((of_char c :: nat) + 32) else c)"

definition ToLower :: "(string \<Rightarrow> string) \<Rightarrow> string \<Rightarrow> string" where
  "ToLower unicodeLower s =
     (if list_all (\<lambda>c. (of_char c :: nat) < 128) s
      then (if list_ex isUpperASCII s then map toLowerASCII s else s)
      else unicodeLower s)"

subsection \<open>The methods of \<^verbatim>\<open>SessionManager\<close>\<close>

text \<open>\<^verbatim>\<open>EnsureProgram\<close>: the caller holds the lock; no repository is involved.\<close>

definition EnsureProgram ::
  "(string \<Rightarrow> string) \<Rightarrow> 'db world \<Rightarrow> string \<Rightarrow> string \<Rightarrow> string \<Rightarrow> 'db world" where
  "EnsureProgram unicodeLower s name category project =
     (let name = ToLower unicodeLower name in
      case Programs s name of
        None \<Rightarrow> s\<lparr>Programs := (Programs s)(name \<mapsto> newTracked category project)\<rparr>
      | Some tracked \<Rightarrow>
          let tracked = (if Category tracked \<noteq> category
                         then tracked\<lparr>Category := category\<rparr> else tracked);
              tracked = (if Project tracked \<noteq> project
                         then tracked\<lparr>Project := project\<rparr> else tracked)
          in s\<lparr>Programs := (Programs s)(name \<mapsto> tracked)\<rparr>)"

text \<open>
  \<^verbatim>\<open>CreateSession\<close>. The struct is reached through a pointer, so the writes to \<open>t\<close>
  are writes to the map entry.
\<close>

definition CreateSession ::
  "timepkg \<Rightarrow> 'db ActiveRepository \<Rightarrow> 'db world \<Rightarrow> string \<Rightarrow> int \<Rightarrow> 'db world" where
  "CreateSession T a s processName pid =
     (let t = (case Programs s processName of None \<Rightarrow> newTracked [] [] | Some t \<Rightarrow> t);
          now = Now T (ticks s);
          s = s\<lparr>ticks := Suc (ticks s)\<rparr>
      in if pid |\<in>| PIDs t then
           s\<lparr>Programs := (Programs s)(processName \<mapsto> t\<lparr>LastSeen := now\<rparr>),
             logger := logger s @ [InfoAlreadyTracked pid processName]\<rparr>
         else
           let t = t\<lparr>PIDs := finsert pid (PIDs t)\<rparr>;
               t = (if fcard (PIDs t) = 1 then t\<lparr>StartAt := now\<rparr> else t);
               t = t\<lparr>LastSeen := now\<rparr>;
               s = s\<lparr>Programs := (Programs s)(processName \<mapsto> t)\<rparr>
           in if fcard (PIDs t) = 1 then
                (case CreateActiveSession a (db s) processName now of
                   (Some err, d) \<Rightarrow>
                     s\<lparr>db := d,
                       calls := calls s @ [CreateActiveSessionCall processName now],
                       logger := logger s @ [ErrCreateActive processName err]\<rparr>
                 | (None, d) \<Rightarrow>
                     s\<lparr>db := d,
                       calls := calls s @ [CreateActiveSessionCall processName now],
                       logger := logger s @ [InfoCreated processName now]\<rparr>)
              else s\<lparr>logger := logger s @ [InfoAddedPID pid processName]\<rparr>)"

text \<open>\<^verbatim>\<open>MoveSessionToHistory\<close>, with its two early returns.\<close>

definition MoveSessionToHistory ::
  "timepkg \<Rightarrow> 'db ProgramRepository \<Rightarrow> 'db ActiveRepository \<Rightarrow> 'db HistoryRepository \<Rightarrow>
   'db world \<Rightarrow> string \<Rightarrow> 'db world" where
  "MoveSessionToHistory T pr a h s processName =
     (let s = s\<lparr>calls := calls s @ [GetActiveSessionCall processName]\<rparr> in
      case GetActiveSession a (db s) processName of
        Inl err \<Rightarrow> s\<lparr>logger := logger s @ [ErrGetActive err]\<rparr>
      | Inr startTime \<Rightarrow>
          let endTime = Now T (ticks s);
              s = s\<lparr>ticks := Suc (ticks s)\<rparr>;
              duration = SubSeconds T endTime startTime;
              r = AddToSessionHistory h (db s) processName startTime endTime duration;
              s = s\<lparr>db := snd r,
                    calls := calls s @
                      [AddToSessionHistoryCall processName startTime endTime duration]\<rparr>
          in case fst r of
               Some err \<Rightarrow> s\<lparr>logger := logger s @ [ErrHistory processName err]\<rparr>
             | None \<Rightarrow>
                 let r = UpdateLifetime pr (db s) processName duration;
                     s = s\<lparr>db := snd r,
                           calls := calls s @ [UpdateLifetimeCall processName duration]\<rparr>;
                     s = (case fst r of
                            Some err \<Rightarrow> s\<lparr>logger := logger s @ [ErrLifetime processName err]\<rparr>
                          | None \<Rightarrow> s);
                     r = RemoveActiveSession a (db s) processName;
                     s = s\<lparr>db := snd r,
                           calls := calls s @ [RemoveActiveSessionCall processName]\<rparr>;
                     s = (case fst r of
                            Some err \<Rightarrow>
                              s\<lparr>logger := logger s @ [ErrRemoveActive processName err]\<rparr>
                          | None \<Rightarrow> s)
                 in s\<lparr>logger := logger s @ [InfoMoved processName duration]\<rparr>)"

text \<open>\<^verbatim>\<open>EndSession\<close>.\<close>

definition EndSession ::
  "timepkg \<Rightarrow> 'db ProgramRepository \<Rightarrow> 'db ActiveRepository \<Rightarrow> 'db HistoryRepository \<Rightarrow>
   'db world \<Rightarrow> string \<Rightarrow> int \<Rightarrow> 'db world" where
  "EndSession T pr a h s processName pid =
     (case Programs s processName of
        None \<Rightarrow> s\<lparr>logger := logger s @ [InfoNoActiveSession processName pid]\<rparr>
      | Some t \<Rightarrow>
          if pid |\<notin>| PIDs t then
            s\<lparr>logger := logger s @ [InfoNotTracked pid processName]\<rparr>
          else
            let t = t\<lparr>PIDs := PIDs t |-| {|pid|}\<rparr>;
                now = Now T (ticks s);
                t = t\<lparr>LastSeen := now\<rparr>;
                s = s\<lparr>Programs := (Programs s)(processName \<mapsto> t),
                      ticks := Suc (ticks s)\<rparr>
            in if fcard (PIDs t) = 0 then
                 let s = MoveSessionToHistory T pr a h s processName
                 in s\<lparr>Programs := (Programs s)(processName := None)\<rparr>
               else s)"

text \<open>
  \<^verbatim>\<open>ValidateActiveSessions\<close>. \<open>isProcessRunning\<close> is the probe of the platform.
  The inner loop stops at the first process that runs; Go visits the keys of a map in an
  order of its own choosing, and the outcome of this loop does not depend on it.
\<close>

fun anyRunning :: "(int \<Rightarrow> bool) \<Rightarrow> int list \<Rightarrow> bool" where
  "anyRunning isProcessRunning [] = False"
| "anyRunning isProcessRunning (pid # pids) =
     (if isProcessRunning pid then True else anyRunning isProcessRunning pids)"

definition allPIDsGone :: "(int \<Rightarrow> bool) \<Rightarrow> Tracked \<Rightarrow> bool" where
  "allPIDsGone isProcessRunning tracked \<longleftrightarrow>
     \<not> anyRunning isProcessRunning (sorted_list_of_fset (PIDs tracked))"

text \<open>
  The first loop, under the lock. \<open>keys\<close> is the order in which \<^verbatim>\<open>range sm.Programs\<close>
  visits the keys of the map, which Go leaves open; a key that is not in the map is
  skipped.
\<close>

fun markPrograms ::
  "(int \<Rightarrow> bool) \<Rightarrow> string list \<Rightarrow> 'db world \<Rightarrow> string list \<Rightarrow> string list \<times> 'db world" where
  "markPrograms isProcessRunning [] s programsToClean = (programsToClean, s)"
| "markPrograms isProcessRunning (programName # keys) s programsToClean =
     (case Programs s programName of
        None \<Rightarrow> markPrograms isProcessRunning keys s programsToClean
      | Some tracked \<Rightarrow>
          if fcard (PIDs tracked) = 0 then
            markPrograms isProcessRunning keys s programsToClean
          else if allPIDsGone isProcessRunning tracked then
            markPrograms isProcessRunning keys
              (s\<lparr>logger := logger s @ [InfoAllGone programName]\<rparr>)
              (programsToClean @ [programName])
          else markPrograms isProcessRunning keys s programsToClean)"

text \<open>The second loop, outside the lock.\<close>

fun cleanPrograms ::
  "timepkg \<Rightarrow> 'db ProgramRepository \<Rightarrow> 'db ActiveRepository \<Rightarrow> 'db HistoryRepository \<Rightarrow>
   'db world \<Rightarrow> string list \<Rightarrow> 'db world" where
  "cleanPrograms T pr a h s [] = s"
| "cleanPrograms T pr a h s (programName # programsToClean) =
     (let s = MoveSessionToHistory T pr a h s programName;
          s = s\<lparr>Programs := (Programs s)(programName := None)\<rparr>
      in cleanPrograms T pr a h s programsToClean)"

definition ValidateActiveSessions ::
  "timepkg \<Rightarrow> (int \<Rightarrow> bool) \<Rightarrow> string list \<Rightarrow>
   'db ProgramRepository \<Rightarrow> 'db ActiveRepository \<Rightarrow> 'db HistoryRepository \<Rightarrow>
   'db world \<Rightarrow> 'db world" where
  "ValidateActiveSessions T isProcessRunning keys pr a h s =
     (case markPrograms isProcessRunning keys s [] of
        (programsToClean, s) \<Rightarrow> cleanPrograms T pr a h s programsToClean)"

subsection \<open>The probes\<close>








subsection \<open>The control requests of the Windows service\<close>

text \<open>
  Modelled from the spec: the event controller (\<^verbatim>\<open>s.eventCtrl\<close>), whose package is not
  among the sources. The spec gives the process monitor and the heartbeat emitter a
  \<open>start\<close> and a \<open>stop\<close>, and lets the heartbeat emitter read the session manager only;
  the controller is its configuration and the two tasks, running or not.
\<close>

record Config =
  WakaTimeEnabled :: bool
  WakapiEnabled :: bool

record EventController =
  Config :: Config
  heartbeatsRunning :: bool
  monitorRunning :: bool

definition StartHeartbeats :: "EventController \<Rightarrow> EventController" where
  "StartHeartbeats ec = ec\<lparr>heartbeatsRunning := True\<rparr>"

definition StopHeartbeats :: "EventController \<Rightarrow> EventController" where
  "StopHeartbeats ec = ec\<lparr>heartbeatsRunning := False\<rparr>"

definition StopProcessMonitor :: "EventController \<Rightarrow> EventController" where
  "StopProcessMonitor ec = ec\<lparr>monitorRunning := False\<rparr>"

text \<open>
  \<^verbatim>\<open>svc.Status\<close> with the fields the service sets, and the three \<^verbatim>\<open>svc.Accepted\<close>
  bits of \<^verbatim>\<open>cmdsAccepted\<close>.
\<close>

datatype svcState = Stopped | StartPending | StopPending | Running | Paused

record Status =
  State :: svcState
  Accepts :: "32 word"

unbundle bit_operations_syntax

definition AcceptStop :: "32 word" where "AcceptStop = 1"

definition AcceptPauseAndContinue :: "32 word" where "AcceptPauseAndContinue = 2"

definition AcceptShutdown :: "32 word" where "AcceptShutdown = 4"

definition cmdsAccepted :: "32 word" where
  "cmdsAccepted = AcceptStop OR AcceptShutdown OR AcceptPauseAndContinue"

text \<open>
  \<^verbatim>\<open>timekeepService\<close>: the event controller, the session manager with the logger and
  the repositories it shares with the service, and what was sent on the status channel.
\<close>

record 'db timekeepService =
  eventCtrl :: EventController
  sessions :: "'db world"
  status :: "Status list"

text \<open>\<^verbatim>\<open>Execute\<close>, lines 78 to 80: the heartbeats start when either integration is on.\<close>

definition startHeartbeatsIfEnabled :: "'db timekeepService \<Rightarrow> 'db timekeepService" where
  "startHeartbeatsIfEnabled s =
     (if WakaTimeEnabled (Config (eventCtrl s)) \<or> WakapiEnabled (Config (eventCtrl s))
      then s\<lparr>eventCtrl := StartHeartbeats (eventCtrl s)\<rparr>
      else s)"

text \<open>\<^verbatim>\<open>Execute\<close>, the arm \<^verbatim>\<open>case svc.Pause\<close> of the main loop.\<close>

definition onPause :: "'db timekeepService \<Rightarrow> 'db timekeepService" where
  "onPause s =
     (let s = s\<lparr>status := status s @ [\<lparr>State = Paused, Accepts = cmdsAccepted\<rparr>]\<rparr>;
          s = s\<lparr>sessions := (sessions s)\<lparr>logger := logger (sessions s) @ [InfoPausing]\<rparr>\<rparr>;
          s = (if WakaTimeEnabled (Config (eventCtrl s))
               then s\<lparr>eventCtrl := StopHeartbeats (eventCtrl s)\<rparr>
               else s)
      in s\<lparr>eventCtrl := StopProcessMonitor (eventCtrl s)\<rparr>)"

text \<open>
  \<^verbatim>\<open>Execute\<close>, the arm \<^verbatim>\<open>case svc.Continue\<close>. \<open>RefreshProcessMonitor\<close> is the method
  of the event controller; it receives the session manager, the logger and the
  repositories, and is a parameter here.
\<close>

definition onContinue ::
  "(EventController \<Rightarrow> 'db world \<Rightarrow> EventController \<times> 'db world) \<Rightarrow>
   'db timekeepService \<Rightarrow> 'db timekeepService" where
  "onContinue RefreshProcessMonitor s =
     (let s = s\<lparr>status := status s @ [\<lparr>State = Running, Accepts = cmdsAccepted\<rparr>]\<rparr>;
          s = s\<lparr>sessions := (sessions s)\<lparr>logger := logger (sessions s) @ [InfoResuming]\<rparr>\<rparr>;
          r = RefreshProcessMonitor (eventCtrl s) (sessions s)
      in s\<lparr>eventCtrl := fst r, sessions := snd r\<rparr>)"

subsection \<open>A store behind the repositories\<close>

text \<open>
  Modelled from the spec: the storage collaborator, which is not among the sources.
  Sections 3 and 6 of the spec give it the open sessions (program name and start time,
  one row for each open session), the append-only session history and the cumulative
  lifetime of each program of the catalog; \<open>getActiveSession\<close> answers the start time
  or "not found", \<open>updateLifetime\<close> adds its argument to the lifetime. Section 7 lets
  any single call fail: a call whose operation is listed in \<open>failing\<close> returns an
  error and leaves the store as it is.
\<close>

datatype repo_op = OpCreateActive | OpGetActive | OpRemoveActive | OpAppendHistory | OpUpdateLifetime

record store =
  activeSessions :: "string \<rightharpoonup> time"
  sessionHistory :: "(string \<times> time \<times> time \<times> int) list"
  lifetimeSeconds :: "string \<rightharpoonup> int"
  failing :: "repo_op list"

definition storeActive :: "store ActiveRepository" where
  "storeActive =
     \<lparr>CreateActiveSession = (\<lambda>d name start.
         if OpCreateActive \<in> set (failing d) then (Some (Error ''create active session''), d)
         else (None, d\<lparr>activeSessions := (activeSessions d)(name \<mapsto> start)\<rparr>)),
      GetActiveSession = (\<lambda>d name.
         if OpGetActive \<in> set (failing d) then Inl (Error ''get active session'')
         else (case activeSessions d name of
                 None \<Rightarrow> Inl (Error ''no rows in result set'')
               | Some start \<Rightarrow> Inr start)),
      RemoveActiveSession = (\<lambda>d name.
         if OpRemoveActive \<in> set (failing d) then (Some (Error ''remove active session''), d)
         else (None, d\<lparr>activeSessions := (activeSessions d)(name := None)\<rparr>))\<rparr>"

definition storeHistory :: "store HistoryRepository" where
  "storeHistory =
     \<lparr>AddToSessionHistory = (\<lambda>d name start finish duration.
         if OpAppendHistory \<in> set (failing d) then (Some (Error ''append history''), d)
         else (None, d\<lparr>sessionHistory := sessionHistory d @ [(name, start, finish, duration)]\<rparr>))\<rparr>"

definition storePrograms :: "store ProgramRepository" where
  "storePrograms =
     \<lparr>UpdateLifetime = (\<lambda>d name delta.
         if OpUpdateLifetime \<in> set (failing d) then (Some (Error ''update lifetime''), d)
         else (case lifetimeSeconds d name of
                 None \<Rightarrow> (None, d)
               | Some l \<Rightarrow> (None, d\<lparr>lifetimeSeconds := (lifetimeSeconds d)(name \<mapsto> l + delta)\<rparr>)))\<rparr>"

text \<open>A clock that advances one second at each reading, and whole-second durations.\<close>

definition tickingClock :: timepkg where
  "tickingClock =
     \<lparr>Now = (\<lambda>k. 1000000000 * int k),
      SubSeconds = (\<lambda>e b. (e - b) div 1000000000)\<rparr>"

subsection \<open>Notifications\<close>

text \<open>
  The process monitor delivers its notifications to \<^verbatim>\<open>CreateSession\<close> and
  \<^verbatim>\<open>EndSession\<close>, one after the other.
\<close>

datatype notification = ProcessStart string int | ProcessStop string int

fun deliver ::
  "timepkg \<Rightarrow> 'db ProgramRepository \<Rightarrow> 'db ActiveRepository \<Rightarrow> 'db HistoryRepository \<Rightarrow>
   'db world \<Rightarrow> notification \<Rightarrow> 'db world" where
  "deliver T pr a h s (ProcessStart name pid) = CreateSession T a s name pid"
| "deliver T pr a h s (ProcessStop name pid) = EndSession T pr a h s name pid"

definition deliverAll ::
  "timepkg \<Rightarrow> 'db ProgramRepository \<Rightarrow> 'db ActiveRepository \<Rightarrow> 'db HistoryRepository \<Rightarrow>
   'db world \<Rightarrow> notification list \<Rightarrow> 'db world" where
  "deliverAll T pr a h s ns = foldl (deliver T pr a h) s ns"

text \<open>The live process identifiers recorded for a name; none when the name has no entry.\<close>

definition livePIDs :: "'db world \<Rightarrow> string \<Rightarrow> int fset" where
  "livePIDs s name = (case Programs s name of None \<Rightarrow> {||} | Some t \<Rightarrow> PIDs t)"

text \<open>What one notification does to the set recorded for \<open>name\<close>.\<close>

fun track :: "string \<Rightarrow> int fset \<Rightarrow> notification \<Rightarrow> int fset" where
  "track name S (ProcessStart n pid) = (if n = name then finsert pid S else S)"
| "track name S (ProcessStop n pid) = (if n = name then S |-| {|pid|} else S)"

text \<open>
  The programs a sweep marks: those with an entry, at least one recorded process, and
  no recorded process that the probe finds running.
\<close>

definition marked :: "(int \<Rightarrow> bool) \<Rightarrow> 'db world \<Rightarrow> string \<Rightarrow> bool" where
  "marked isProcessRunning s name \<longleftrightarrow>
     (case Programs s name of
        None \<Rightarrow> False
      | Some t \<Rightarrow> PIDs t \<noteq> {||} \<and> (\<forall>pid. pid |\<in>| PIDs t \<longrightarrow> \<not> isProcessRunning pid))"

text \<open>The repository calls made between two states.\<close>

definition newCalls :: "'db world \<Rightarrow> 'db world \<Rightarrow> call list" where
  "newCalls s s' = drop (length (calls s)) (calls s')"

subsection \<open>Example states\<close>

text \<open>A store with two programs in its catalog and no open session.\<close>

definition seededStore :: store where
  "seededStore =
     \<lparr>activeSessions = Map.empty, sessionHistory = [],
      lifetimeSeconds = [''browser'' \<mapsto> 0, ''editor'' \<mapsto> 0], failing = []\<rparr>"

text \<open>A session manager in which \<open>editor\<close> has an open session with one process.\<close>

definition editorTracked :: Tracked where
  "editorTracked =
     \<lparr>Category = ''tools'', Project = ''timekeep'', PIDs = {|100|},
      StartAt = 5000000000, LastSeen = 9000000000\<rparr>"

definition editorWorld :: "store world" where
  "editorWorld =
     \<lparr>Programs = [''editor'' \<mapsto> editorTracked],
      db = seededStore\<lparr>activeSessions := [''editor'' \<mapsto> 5000000000]\<rparr>,
      logger = [], calls = [], ticks = 10\<rparr>"

text \<open>The same state over a store in which every call fails.\<close>

definition brokenWorld :: "store world" where
  "brokenWorld =
     editorWorld\<lparr>db := (db editorWorld)\<lparr>failing :=
       [OpCreateActive, OpGetActive, OpRemoveActive, OpAppendHistory, OpUpdateLifetime]\<rparr>\<rparr>"

text \<open>Two programs with open sessions.\<close>

definition browserTracked :: Tracked where
  "browserTracked =
     \<lparr>Category = [], Project = [], PIDs = {|5, 6|},
      StartAt = 7000000000, LastSeen = 8000000000\<rparr>"

definition twoProgramsWorld :: "store world" where
  "twoProgramsWorld =
     \<lparr>Programs = [''editor'' \<mapsto> editorTracked, ''browser'' \<mapsto> browserTracked],
      db = seededStore\<lparr>activeSessions :=
             [''editor'' \<mapsto> 5000000000, ''browser'' \<mapsto> 7000000000]\<rparr>,
      logger = [], calls = [], ticks = 10\<rparr>"

text \<open>The state of \<open>editorWorld\<close> over a store in which one kind of call fails.\<close>

definition historyDownWorld :: "store world" where
  "historyDownWorld =
     editorWorld\<lparr>db := (db editorWorld)\<lparr>failing := [OpAppendHistory]\<rparr>\<rparr>"

definition lifetimeDownWorld :: "store world" where
  "lifetimeDownWorld =
     editorWorld\<lparr>db := (db editorWorld)\<lparr>failing := [OpUpdateLifetime]\<rparr>\<rparr>"




text \<open>
  A service with the Wakapi integration only, as \<^verbatim>\<open>Execute\<close> has it at line 78: the
  process monitor runs, the heartbeats have not been started yet.
\<close>

definition wakapiOnly :: "store timekeepService" where
  "wakapiOnly =
     \<lparr>eventCtrl = \<lparr>Config = \<lparr>WakaTimeEnabled = False, WakapiEnabled = True\<rparr>,
                   heartbeatsRunning = False, monitorRunning = True\<rparr>,
      sessions = editorWorld,
      status = [\<lparr>State = StartPending, Accepts = 0\<rparr>]\<rparr>"

section \<open>Properties\<close>

subsection \<open>What each method does to the map\<close>

lemma MoveSessionToHistory_Programs:
  "Programs (MoveSessionToHistory T pr a h s n) = Programs s"
  by (simp add: MoveSessionToHistory_def Let_def split: sum.splits option.splits)

lemma CreateSession_other:
  "m \<noteq> n \<Longrightarrow> Programs (CreateSession T a s n pid) m = Programs s m"
  by (simp add: CreateSession_def Let_def split: option.splits prod.splits)

lemma EndSession_other:
  "m \<noteq> n \<Longrightarrow> Programs (EndSession T pr a h s n pid) m = Programs s m"
  by (simp add: EndSession_def Let_def MoveSessionToHistory_Programs split: option.splits)

lemma livePIDs_CreateSession:
  "livePIDs (CreateSession T a s n pid) n = finsert pid (livePIDs s n)"
  by (auto simp add: livePIDs_def CreateSession_def Let_def newTracked_def
      split: option.splits prod.splits)

lemma livePIDs_EndSession:
  "livePIDs (EndSession T pr a h s n pid) n = livePIDs s n |-| {|pid|}"
  by (auto simp add: livePIDs_def EndSession_def Let_def MoveSessionToHistory_Programs
      split: option.splits)

lemma livePIDs_cong:
  "Programs s' n = Programs s n \<Longrightarrow> livePIDs s' n = livePIDs s n"
  by (simp add: livePIDs_def)

lemma livePIDs_deliver:
  "livePIDs (deliver T pr a h s e) name = track name (livePIDs s name) e"
  by (cases e)
     (auto simp: livePIDs_CreateSession livePIDs_EndSession
           intro!: livePIDs_cong CreateSession_other EndSession_other)

lemma livePIDs_deliverAll:
  "livePIDs (deliverAll T pr a h s ns) name = foldl (track name) (livePIDs s name) ns"
  unfolding deliverAll_def
  by (induction ns arbitrary: s) (simp_all add: livePIDs_deliver)

text \<open>Evaluating the model on the example states.\<close>

lemmas model_defs =
  deliverAll_def CreateSession_def EndSession_def MoveSessionToHistory_def
  NewSessionManager_def newTracked_def livePIDs_def Let_def
  storeActive_def storeHistory_def storePrograms_def tickingClock_def seededStore_def
  editorWorld_def editorTracked_def fcard_finsert_if

lemma ToLower_Editor: "ToLower unicodeLower ''Editor'' = ''editor''"
  by code_simp

subsection \<open>The live process identifiers after a run of notifications\<close>

lemma snoc_eq_mid:
  "ns @ [e] = pre @ x # post \<longleftrightarrow>
     (post = [] \<and> ns = pre \<and> e = x) \<or> (\<exists>post'. post = post' @ [e] \<and> ns = pre @ x # post')"
  by (cases post rule: rev_cases) auto

lemma started_snoc:
  "(\<exists>pre post. ns @ [e] = pre @ x # post \<and> y \<notin> set post) \<longleftrightarrow>
     e = x \<or> ((\<exists>pre post. ns = pre @ x # post \<and> y \<notin> set post) \<and> e \<noteq> y)"
  (is "?L \<longleftrightarrow> ?R")
proof
  assume ?L
  then obtain pre post where eq: "ns @ [e] = pre @ x # post" and y: "y \<notin> set post"
    by blast
  from eq have "(post = [] \<and> ns = pre \<and> e = x) \<or>
      (\<exists>post'. post = post' @ [e] \<and> ns = pre @ x # post')"
    by (simp add: snoc_eq_mid)
  then show ?R
  proof
    assume "post = [] \<and> ns = pre \<and> e = x"
    then show ?R by simp
  next
    assume "\<exists>post'. post = post' @ [e] \<and> ns = pre @ x # post'"
    then obtain post' where "post = post' @ [e]" "ns = pre @ x # post'" by blast
    with y show ?R by auto
  qed
next
  assume ?R
  then show ?L
  proof
    assume "e = x"
    then have "ns @ [e] = ns @ x # [] \<and> y \<notin> set []" by simp
    then show ?L by blast
  next
    assume "(\<exists>pre post. ns = pre @ x # post \<and> y \<notin> set post) \<and> e \<noteq> y"
    then obtain pre post where "ns = pre @ x # post" "y \<notin> set post" "e \<noteq> y" by blast
    then have "ns @ [e] = pre @ x # (post @ [e]) \<and> y \<notin> set (post @ [e])" by auto
    then show ?L by blast
  qed
qed

lemma foldl_track:
  "fset (foldl (track name) S ns) =
     {pid. (pid |\<in>| S \<and> ProcessStop name pid \<notin> set ns) \<or>
           (\<exists>pre post. ns = pre @ ProcessStart name pid # post \<and>
                        ProcessStop name pid \<notin> set post)}"
proof (induction ns rule: rev_induct)
  case Nil
  then show ?case by auto
next
  case (snoc e ns)
  show ?case
  proof (cases e)
    case (ProcessStart n p)
    then show ?thesis
      using snoc by (auto simp: started_snoc)
  next
    case (ProcessStop n p)
    then show ?thesis
      using snoc by (auto simp: started_snoc)
  qed
qed

text \<open>
  Claim C5. Start from a fresh session manager and deliver any finite list of start and
  stop notifications, for any program names, in any interleaving. The process
  identifiers then recorded for \<open>name\<close> are exactly those for which the list holds a
  start notification for \<open>name\<close> with no stop notification for \<open>name\<close> and that
  identifier after it (a name without an entry has none recorded). This holds whatever
  the repositories answer.
\<close>

theorem livePIDs_started_not_stopped:
  "fset (livePIDs (deliverAll T pr a h (NewSessionManager d) ns) name) =
     {pid. \<exists>pre post. ns = pre @ ProcessStart name pid # post \<and>
                       ProcessStop name pid \<notin> set post}"
  by (simp add: livePIDs_deliverAll foldl_track) (simp add: livePIDs_def NewSessionManager_def)

theorem livePIDs_started_not_stopped_witness:
  "fset (livePIDs (deliverAll tickingClock storePrograms storeActive storeHistory
           (NewSessionManager seededStore)
           [ProcessStart ''editor'' 100, ProcessStart ''browser'' 5,
            ProcessStart ''editor'' 200, ProcessStop ''editor'' 100,
            ProcessStop ''browser'' 5, ProcessStop ''editor'' 7]) ''editor'') = {200} \<and>
   {pid. \<exists>pre post.
        [ProcessStart ''editor'' 100, ProcessStart ''browser'' 5,
         ProcessStart ''editor'' 200, ProcessStop ''editor'' 100,
         ProcessStop ''browser'' 5, ProcessStop ''editor'' 7] =
          pre @ ProcessStart ''editor'' pid # post \<and>
        ProcessStop ''editor'' pid \<notin> set post} = {200}"
proof -
  have run: "fset (livePIDs (deliverAll tickingClock storePrograms storeActive storeHistory
           (NewSessionManager seededStore)
           [ProcessStart ''editor'' 100, ProcessStart ''browser'' 5,
            ProcessStart ''editor'' 200, ProcessStop ''editor'' 100,
            ProcessStop ''browser'' 5, ProcessStop ''editor'' 7]) ''editor'') = {200}"
    by (auto simp add: model_defs)
  show ?thesis
    using run
      livePIDs_started_not_stopped [of tickingClock storePrograms storeActive storeHistory
        seededStore
        "[ProcessStart ''editor'' 100, ProcessStart ''browser'' 5,
          ProcessStart ''editor'' 200, ProcessStop ''editor'' 100,
          ProcessStop ''browser'' 5, ProcessStop ''editor'' 7]" "''editor''"]
    by (simp only:)
qed

subsection \<open>Re-seeding a tracked program\<close>



subsection \<open>The start time of a session\<close>

lemma CreateSession_first:
  assumes "livePIDs s name = {||}"
  shows "\<exists>t'. Programs (CreateSession T a s name pid) name = Some t' \<and>
              StartAt t' = Now T (ticks s) \<and> PIDs t' = {|pid|}"
  using assms
  by (auto simp add: livePIDs_def CreateSession_def Let_def newTracked_def fcard_finsert_if
      split: option.splits prod.splits)

lemma CreateSession_later:
  assumes "Programs s name = Some t" "PIDs t \<noteq> {||}"
  shows "\<exists>t'. Programs (CreateSession T a s name pid) name = Some t' \<and>
              StartAt t' = StartAt t \<and> PIDs t' = finsert pid (PIDs t)"
  using assms
  by (auto simp add: CreateSession_def Let_def fcard_finsert_if
      split: option.splits prod.splits)

lemma EndSession_StartAt:
  assumes "Programs s name = Some t" "Programs (EndSession T pr a h s name pid) name = Some t'"
  shows "StartAt t' = StartAt t"
  using assms
  by (auto simp add: EndSession_def Let_def MoveSessionToHistory_Programs
      split: option.splits if_splits)

lemma EndSession_last:
  assumes "Programs s name = Some t" "PIDs t = {|pid|}"
  shows "Programs (EndSession T pr a h s name pid) name = None"
  using assms
  by (simp add: EndSession_def Let_def MoveSessionToHistory_Programs)

lemma EndSession_empties:
  assumes "Programs s name = Some t" "pid |\<in>| PIDs t" "PIDs t |-| {|pid|} = {||}"
  shows "Programs (EndSession T pr a h s name pid) name = None"
  using assms
  by (simp add: EndSession_def Let_def MoveSessionToHistory_Programs)

lemma deliver_StartAt:
  assumes "Programs s name = Some t" "PIDs t \<noteq> {||}"
    and "Programs (deliver T pr a h s e) name = Some t'"
  shows "StartAt t' = StartAt t"
proof (cases e)
  case (ProcessStart n pid)
  show ?thesis
  proof (cases "n = name")
    case True
    with assms ProcessStart CreateSession_later [OF assms(1,2), of T a pid]
    show ?thesis by auto
  next
    case False
    with assms ProcessStart show ?thesis by (simp add: CreateSession_other)
  qed
next
  case (ProcessStop n pid)
  show ?thesis
  proof (cases "n = name")
    case True
    with assms ProcessStop EndSession_StartAt [OF assms(1), of T pr a h pid t']
    show ?thesis by auto
  next
    case False
    with assms ProcessStop show ?thesis by (simp add: EndSession_other)
  qed
qed

lemma StartAt_fixed_while_open:
  assumes "Programs s name = Some t"
    and "\<forall>k \<le> length ns. livePIDs (deliverAll T pr a h s (take k ns)) name \<noteq> {||}"
  shows "\<exists>t'. Programs (deliverAll T pr a h s ns) name = Some t' \<and> StartAt t' = StartAt t"
  using assms
proof (induction ns rule: rev_induct)
  case Nil
  then show ?case by (simp add: deliverAll_def)
next
  case (snoc e ns)
  have pre: "\<forall>k \<le> length ns. livePIDs (deliverAll T pr a h s (take k ns)) name \<noteq> {||}"
  proof (intro allI impI)
    fix k assume "k \<le> length ns"
    then have "take k (ns @ [e]) = take k ns" by simp
    moreover have "k \<le> length (ns @ [e])" using \<open>k \<le> length ns\<close> by simp
    ultimately show "livePIDs (deliverAll T pr a h s (take k ns)) name \<noteq> {||}"
      using snoc.prems(2) by metis
  qed
  then obtain t1 where t1: "Programs (deliverAll T pr a h s ns) name = Some t1"
      "StartAt t1 = StartAt t"
    using snoc.IH snoc.prems(1) by blast
  have ne1: "PIDs t1 \<noteq> {||}"
    using pre [rule_format, of "length ns"] t1 by (simp add: livePIDs_def)
  have step: "deliverAll T pr a h s (ns @ [e]) = deliver T pr a h (deliverAll T pr a h s ns) e"
    by (simp add: deliverAll_def)
  have "livePIDs (deliverAll T pr a h s (ns @ [e])) name \<noteq> {||}"
    using snoc.prems(2) [rule_format, of "length (ns @ [e])"] by simp
  then obtain t2 where t2: "Programs (deliverAll T pr a h s (ns @ [e])) name = Some t2"
    by (auto simp add: livePIDs_def split: option.splits)
  have "StartAt t2 = StartAt t1"
    using deliver_StartAt [OF t1(1) ne1] t2 step by simp
  with t1 t2 show ?case by simp
qed


text \<open>
  Claim C6. \<^verbatim>\<open>CreateSession\<close> for a program with no recorded process (no entry, or an
  entry with an empty set) sets \<open>StartAt\<close> to the clock reading of that call.
  \<^verbatim>\<open>CreateSession\<close> for a program that has a recorded process leaves \<open>StartAt\<close> as it
  is, whether the identifier is already recorded or new. Over any list of
  notifications, for any names, during which the set of the program is never empty, the
  entry stays and keeps its \<open>StartAt\<close>.
\<close>

theorem StartAt_set_once:
  "(livePIDs s name = {||} \<longrightarrow>
      (\<exists>t'. Programs (CreateSession T a s name pid) name = Some t' \<and>
            StartAt t' = Now T (ticks s) \<and> PIDs t' = {|pid|})) \<and>
   (Programs s name = Some t \<and> PIDs t \<noteq> {||} \<longrightarrow>
      (\<exists>t'. Programs (CreateSession T a s name pid) name = Some t' \<and>
            StartAt t' = StartAt t \<and> PIDs t' = finsert pid (PIDs t))) \<and>
   (Programs s name = Some t \<and>
    (\<forall>k \<le> length ns. livePIDs (deliverAll T pr a h s (take k ns)) name \<noteq> {||}) \<longrightarrow>
      (\<exists>t'. Programs (deliverAll T pr a h s ns) name = Some t' \<and> StartAt t' = StartAt t))"
  using CreateSession_first [of s name T a pid] CreateSession_later [of s name t T a pid]
    StartAt_fixed_while_open [of s name t ns T pr a h]
  by blast

lemma le3: "k \<le> (3::nat) \<Longrightarrow> k = 0 \<or> k = 1 \<or> k = 2 \<or> k = 3"
  by arith

theorem StartAt_set_once_witness:
  "livePIDs editorWorld ''browser'' = {||} \<and>
   Programs (CreateSession tickingClock storeActive editorWorld ''browser'' 5) ''browser'' =
     Some \<lparr>Category = [], Project = [], PIDs = {|5|},
           StartAt = 10000000000, LastSeen = 10000000000\<rparr> \<and>
   Programs editorWorld ''editor'' = Some editorTracked \<and> PIDs editorTracked \<noteq> {||} \<and>
   Programs (CreateSession tickingClock storeActive editorWorld ''editor'' 200) ''editor'' =
     Some \<lparr>Category = ''tools'', Project = ''timekeep'', PIDs = {|200, 100|},
           StartAt = 5000000000, LastSeen = 10000000000\<rparr> \<and>
   (\<exists>t'. Programs (deliverAll tickingClock storePrograms storeActive storeHistory editorWorld
            [ProcessStart ''editor'' 200, ProcessStop ''editor'' 100,
             ProcessStart ''editor'' 200]) ''editor'' = Some t' \<and>
         StartAt t' = 5000000000)"
proof -
  have a: "livePIDs editorWorld ''browser'' = {||}"
    by (simp add: model_defs)
  have b: "Programs editorWorld ''editor'' = Some editorTracked \<and> PIDs editorTracked \<noteq> {||}"
    by (simp add: model_defs)
  have c: "\<forall>k \<le> length [ProcessStart ''editor'' 200, ProcessStop ''editor'' 100,
                   ProcessStart ''editor'' 200].
      livePIDs (deliverAll tickingClock storePrograms storeActive storeHistory editorWorld
        (take k [ProcessStart ''editor'' 200, ProcessStop ''editor'' 100,
                 ProcessStart ''editor'' 200])) ''editor'' \<noteq> {||}"
  proof (intro allI impI)
    fix k :: nat
    assume "k \<le> length [ProcessStart ''editor'' 200, ProcessStop ''editor'' 100,
                   ProcessStart ''editor'' 200]"
    then have "k = 0 \<or> k = 1 \<or> k = 2 \<or> k = 3" by (intro le3) simp
    then show "livePIDs (deliverAll tickingClock storePrograms storeActive storeHistory
        editorWorld (take k [ProcessStart ''editor'' 200, ProcessStop ''editor'' 100,
                 ProcessStart ''editor'' 200])) ''editor'' \<noteq> {||}"
      by (auto simp add: model_defs)
  qed
  have d: "Programs (CreateSession tickingClock storeActive editorWorld ''browser'' 5) ''browser'' =
     Some \<lparr>Category = [], Project = [], PIDs = {|5|},
           StartAt = 10000000000, LastSeen = 10000000000\<rparr>"
    by (simp add: model_defs)
  have e: "Programs (CreateSession tickingClock storeActive editorWorld ''editor'' 200) ''editor'' =
     Some \<lparr>Category = ''tools'', Project = ''timekeep'', PIDs = {|200, 100|},
           StartAt = 5000000000, LastSeen = 10000000000\<rparr>"
    by (simp add: model_defs)
  have f: "StartAt editorTracked = 5000000000"
    by (simp add: editorTracked_def)
  show ?thesis
    using a b c d e f
      StartAt_set_once [of editorWorld "''browser''" tickingClock storeActive 5
        editorTracked "[]" storePrograms storeHistory]
      StartAt_set_once [of editorWorld "''editor''" tickingClock storeActive 200
        editorTracked
        "[ProcessStart ''editor'' 200, ProcessStop ''editor'' 100, ProcessStart ''editor'' 200]"
        storePrograms storeHistory]
    by metis
qed


subsection \<open>The reconciliation sweep\<close>

lemma anyRunning_iff: "anyRunning p pids \<longleftrightarrow> (\<exists>pid \<in> set pids. p pid)"
  by (induction pids) auto

lemma allPIDsGone_iff:
  "allPIDsGone p t \<longleftrightarrow> (\<forall>pid. pid |\<in>| PIDs t \<longrightarrow> \<not> p pid)"
  by (auto simp add: allPIDsGone_def anyRunning_iff)

lemma markPrograms_eq:
  "markPrograms p keys s acc =
     (acc @ filter (marked p s) keys,
      s\<lparr>logger := logger s @ map InfoAllGone (filter (marked p s) keys)\<rparr>)"
proof (induction keys arbitrary: s acc)
  case Nil
  then show ?case by simp
next
  case (Cons k keys)
  have m: "marked p (s\<lparr>logger := l\<rparr>) = marked p s" for l
    by (rule ext) (simp add: marked_def)
  show ?case
    by (simp add: Cons m  marked_def allPIDsGone_iff split: option.splits)
qed

lemma cleanPrograms_Programs:
  "Programs (cleanPrograms T pr a h s l) = (\<lambda>m. if m \<in> set l then None else Programs s m)"
  by (induction l arbitrary: s) (auto simp add: Let_def MoveSessionToHistory_Programs)

lemma MoveSessionToHistory_calls:
  "\<exists>cs. calls (MoveSessionToHistory T pr a h s n) = calls s @ GetActiveSessionCall n # cs \<and>
        (\<forall>c \<in> set cs. callName c = n)"
  by (simp add: MoveSessionToHistory_def Let_def split: sum.splits option.splits)

lemma cleanPrograms_calls:
  "\<exists>cs. calls (cleanPrograms T pr a h s l) = calls s @ cs \<and>
        (\<forall>c \<in> set cs. callName c \<in> set l) \<and>
        (\<forall>n \<in> set l. GetActiveSessionCall n \<in> set cs)"
proof (induction l arbitrary: s)
  case Nil
  then show ?case by simp
next
  case (Cons n l)
  let ?s1 = "MoveSessionToHistory T pr a h s n"
  let ?s2 = "?s1\<lparr>Programs := (Programs ?s1)(n := None)\<rparr>"
  obtain cs1 where c1: "calls ?s1 = calls s @ GetActiveSessionCall n # cs1"
      "\<forall>c \<in> set cs1. callName c = n"
    using MoveSessionToHistory_calls by blast
  obtain cs2 where c2: "calls (cleanPrograms T pr a h ?s2 l) = calls ?s2 @ cs2"
      "\<forall>c \<in> set cs2. callName c \<in> set l" "\<forall>n \<in> set l. GetActiveSessionCall n \<in> set cs2"
    using Cons.IH by blast
  have "calls (cleanPrograms T pr a h s (n # l)) = calls s @ (GetActiveSessionCall n # cs1 @ cs2)"
    using c1 c2 by (simp add: Let_def)
  moreover have "\<forall>c \<in> set (GetActiveSessionCall n # cs1 @ cs2). callName c \<in> set (n # l)"
    using c1 c2 by auto
  moreover have "\<forall>m \<in> set (n # l). GetActiveSessionCall m \<in> set (GetActiveSessionCall n # cs1 @ cs2)"
    using c2 by auto
  ultimately show ?case by blast
qed

lemma Validate_Programs:
  "Programs (ValidateActiveSessions T p keys pr a h s) =
     (\<lambda>m. if m \<in> set keys \<and> marked p s m then None else Programs s m)"
  by (simp add: ValidateActiveSessions_def markPrograms_eq cleanPrograms_Programs fun_eq_iff)

lemma Validate_newCalls:
  "(\<forall>c \<in> set (newCalls s (ValidateActiveSessions T p keys pr a h s)).
       callName c \<in> set keys \<and> marked p s (callName c)) \<and>
   (\<forall>n \<in> set keys. marked p s n \<longrightarrow>
       GetActiveSessionCall n \<in> set (newCalls s (ValidateActiveSessions T p keys pr a h s)))"
proof -
  let ?s0 = "s\<lparr>logger := logger s @ map InfoAllGone (filter (marked p s) keys)\<rparr>"
  obtain cs where cs: "calls (cleanPrograms T pr a h ?s0 (filter (marked p s) keys)) = calls ?s0 @ cs"
     "\<forall>c \<in> set cs. callName c \<in> set (filter (marked p s) keys)"
     "\<forall>n \<in> set (filter (marked p s) keys). GetActiveSessionCall n \<in> set cs"
    using cleanPrograms_calls by blast
  have "newCalls s (ValidateActiveSessions T p keys pr a h s) = cs"
    using cs(1) by (simp add: newCalls_def ValidateActiveSessions_def markPrograms_eq)
  with cs(2,3) show ?thesis by auto
qed

lemma MoveSessionToHistory_newCalls:
  assumes "calls s1 = calls s"
  shows "GetActiveSessionCall n \<in>
           set (drop (length (calls s)) (calls (MoveSessionToHistory T pr a h s1 n)))"
  using MoveSessionToHistory_calls [of T pr a h s1 n] assms by auto

lemma EndSession_newCalls:
  assumes "Programs s name = Some t" "pid |\<in>| PIDs t" "PIDs t |-| {|pid|} = {||}"
  shows "GetActiveSessionCall name \<in> set (newCalls s (EndSession T pr a h s name pid))"
  using assms
  by (simp add: EndSession_def Let_def newCalls_def MoveSessionToHistory_newCalls)

lemmas sweep_defs =
  ValidateActiveSessions_def markPrograms_eq marked_def newCalls_def
  brokenWorld_def twoProgramsWorld_def browserTracked_def

text \<open>
  Claim C10. When \<^verbatim>\<open>EndSession\<close> removes the last recorded process of a program, and
  when a sweep has marked a program for cleanup, \<^verbatim>\<open>MoveSessionToHistory\<close> is called
  (its first repository call is made) and the entry of the program is gone from the map
  afterwards. No assumption is made on the repositories: this holds when every one of
  their calls fails, the read of the open session included.
\<close>

theorem entry_removed_after_commit_attempt:
  "(Programs s name = Some t \<and> pid |\<in>| PIDs t \<and> PIDs t |-| {|pid|} = {||} \<longrightarrow>
      Programs (EndSession T pr a h s name pid) name = None \<and>
      GetActiveSessionCall name \<in> set (newCalls s (EndSession T pr a h s name pid))) \<and>
   (name \<in> set (fst (markPrograms isProcessRunning keys s [])) \<longrightarrow>
      Programs (ValidateActiveSessions T isProcessRunning keys pr a h s) name = None \<and>
      GetActiveSessionCall name \<in>
        set (newCalls s (ValidateActiveSessions T isProcessRunning keys pr a h s)))"
  using EndSession_empties [of s name t pid T pr a h] EndSession_newCalls [of s name t pid T pr a h]
    Validate_newCalls [of s T isProcessRunning keys pr a h]
  by (auto simp add: Validate_Programs markPrograms_eq)

theorem entry_removed_after_commit_attempt_witness:
  "Programs brokenWorld ''editor'' = Some editorTracked \<and> 100 |\<in>| PIDs editorTracked \<and>
   PIDs editorTracked |-| {|100|} = {||} \<and>
   Programs (EndSession tickingClock storePrograms storeActive storeHistory
               brokenWorld ''editor'' 100) ''editor'' = None \<and>
   calls (EndSession tickingClock storePrograms storeActive storeHistory
               brokenWorld ''editor'' 100) = [GetActiveSessionCall ''editor''] \<and>
   db (EndSession tickingClock storePrograms storeActive storeHistory
               brokenWorld ''editor'' 100) = db brokenWorld \<and>
   ''editor'' \<in> set (fst (markPrograms (\<lambda>pid. False) [''editor''] brokenWorld [])) \<and>
   Programs (ValidateActiveSessions tickingClock (\<lambda>pid. False) [''editor'']
               storePrograms storeActive storeHistory brokenWorld) ''editor'' = None \<and>
   calls (ValidateActiveSessions tickingClock (\<lambda>pid. False) [''editor'']
               storePrograms storeActive storeHistory brokenWorld) =
     [GetActiveSessionCall ''editor'']"
proof -
  have a: "Programs brokenWorld ''editor'' = Some editorTracked \<and> 100 |\<in>| PIDs editorTracked \<and>
      PIDs editorTracked |-| {|100|} = {||}"
    by (simp add: model_defs sweep_defs)
  have b: "''editor'' \<in> set (fst (markPrograms (\<lambda>pid. False) [''editor''] brokenWorld []))"
    by (simp add: model_defs sweep_defs)
  have c: "calls (EndSession tickingClock storePrograms storeActive storeHistory
               brokenWorld ''editor'' 100) = [GetActiveSessionCall ''editor''] \<and>
      db (EndSession tickingClock storePrograms storeActive storeHistory
               brokenWorld ''editor'' 100) = db brokenWorld"
    by (simp add: model_defs sweep_defs)
  have d: "calls (ValidateActiveSessions tickingClock (\<lambda>pid. False) [''editor'']
               storePrograms storeActive storeHistory brokenWorld) =
     [GetActiveSessionCall ''editor'']"
    by (simp add: model_defs sweep_defs)
  show ?thesis
    using a b c d
      entry_removed_after_commit_attempt [of brokenWorld "''editor''" editorTracked 100
        tickingClock storePrograms storeActive storeHistory "\<lambda>pid. False" "[''editor'']"]
    by blast
qed





subsection \<open>Committing a session\<close>

lemmas fault_defs = historyDownWorld_def lifetimeDownWorld_def

lemma MoveSessionToHistory_db:
  assumes "GetActiveSession a (db s) name = Inr startTime"
    and "fst (AddToSessionHistory h (db s) name startTime (Now T (ticks s))
                (SubSeconds T (Now T (ticks s)) startTime)) = None"
  shows "db (MoveSessionToHistory T pr a h s name) =
           snd (RemoveActiveSession a
                (snd (UpdateLifetime pr
                  (snd (AddToSessionHistory h (db s) name startTime (Now T (ticks s))
                    (SubSeconds T (Now T (ticks s)) startTime)))
                  name (SubSeconds T (Now T (ticks s)) startTime))) name)"
  using assms
  by (simp add: MoveSessionToHistory_def Let_def split: option.splits)

lemma MoveSessionToHistory_not_found:
  assumes "GetActiveSession a (db s) name = Inl e"
  shows "MoveSessionToHistory T pr a h s name =
           s\<lparr>calls := calls s @ [GetActiveSessionCall name],
             logger := logger s @ [ErrGetActive e]\<rparr>"
  using assms by (simp add: MoveSessionToHistory_def Let_def)

text \<open>
  Claim C1, as the code has it. Let \<^verbatim>\<open>MoveSessionToHistory\<close> read the start time of the
  open session. It then appends the history row. When that call succeeds, the lifetime
  update and the removal of the open session are both attempted, whatever the lifetime
  update returns, and each failure is logged. When the append fails, the failure is
  logged and the function returns: neither the lifetime update nor the removal is
  attempted.
\<close>

theorem commit_steps:
  assumes "GetActiveSession a (db s) name = Inr startTime"
  shows "let endTime = Now T (ticks s);
             duration = SubSeconds T endTime startTime;
             r1 = AddToSessionHistory h (db s) name startTime endTime duration;
             r2 = UpdateLifetime pr (snd r1) name duration;
             r3 = RemoveActiveSession a (snd r2) name;
             s' = MoveSessionToHistory T pr a h s name
         in (fst r1 = None \<longrightarrow>
               calls s' = calls s @
                 [GetActiveSessionCall name,
                  AddToSessionHistoryCall name startTime endTime duration,
                  UpdateLifetimeCall name duration, RemoveActiveSessionCall name] \<and>
               db s' = snd r3 \<and>
               logger s' = logger s @
                 (case fst r2 of None \<Rightarrow> [] | Some e \<Rightarrow> [ErrLifetime name e]) @
                 (case fst r3 of None \<Rightarrow> [] | Some e \<Rightarrow> [ErrRemoveActive name e]) @
                 [InfoMoved name duration]) \<and>
            (\<forall>e. fst r1 = Some e \<longrightarrow>
               calls s' = calls s @
                 [GetActiveSessionCall name,
                  AddToSessionHistoryCall name startTime endTime duration] \<and>
               db s' = snd r1 \<and>
               logger s' = logger s @ [ErrHistory name e])"
  using assms
  by (auto simp add: MoveSessionToHistory_def Let_def split: option.splits)

theorem commit_steps_witness:
  "GetActiveSession storeActive (db lifetimeDownWorld) ''editor'' = Inr 5000000000 \<and>
   calls (MoveSessionToHistory tickingClock storePrograms storeActive storeHistory
            lifetimeDownWorld ''editor'') =
     [GetActiveSessionCall ''editor'',
      AddToSessionHistoryCall ''editor'' 5000000000 10000000000 5,
      UpdateLifetimeCall ''editor'' 5, RemoveActiveSessionCall ''editor''] \<and>
   logger (MoveSessionToHistory tickingClock storePrograms storeActive storeHistory
            lifetimeDownWorld ''editor'') =
     [ErrLifetime ''editor'' (Error ''update lifetime''), InfoMoved ''editor'' 5] \<and>
   activeSessions (db (MoveSessionToHistory tickingClock storePrograms storeActive storeHistory
            lifetimeDownWorld ''editor'')) ''editor'' = None \<and>
   GetActiveSession storeActive (db historyDownWorld) ''editor'' = Inr 5000000000 \<and>
   calls (MoveSessionToHistory tickingClock storePrograms storeActive storeHistory
            historyDownWorld ''editor'') =
     [GetActiveSessionCall ''editor'',
      AddToSessionHistoryCall ''editor'' 5000000000 10000000000 5] \<and>
   activeSessions (db (MoveSessionToHistory tickingClock storePrograms storeActive storeHistory
            historyDownWorld ''editor'')) ''editor'' = Some 5000000000"
proof -
  have g1: "GetActiveSession storeActive (db lifetimeDownWorld) ''editor'' = Inr 5000000000"
    by (simp add: model_defs fault_defs)
  have g2: "GetActiveSession storeActive (db historyDownWorld) ''editor'' = Inr 5000000000"
    by (simp add: model_defs fault_defs)
  show ?thesis
    using g1 g2
      commit_steps [OF g1, of tickingClock storeHistory storePrograms]
      commit_steps [OF g2, of tickingClock storeHistory storePrograms]
    by (simp add: Let_def storeActive_def storeHistory_def storePrograms_def tickingClock_def
        seededStore_def editorWorld_def fault_defs)
qed

text \<open>
  The three calls are not independent: with a store in which the append to the history
  fails, \<^verbatim>\<open>MoveSessionToHistory\<close> makes two repository calls, logs the failure and
  leaves the store as it was.
\<close>

theorem history_failure_ends_commit:
  "calls (MoveSessionToHistory tickingClock storePrograms storeActive storeHistory
            historyDownWorld ''editor'') =
     [GetActiveSessionCall ''editor'',
      AddToSessionHistoryCall ''editor'' 5000000000 10000000000 5] \<and>
   logger (MoveSessionToHistory tickingClock storePrograms storeActive storeHistory
            historyDownWorld ''editor'') =
     [ErrHistory ''editor'' (Error ''append history'')] \<and>
   db (MoveSessionToHistory tickingClock storePrograms storeActive storeHistory
            historyDownWorld ''editor'') = db historyDownWorld"
  by (simp add: model_defs fault_defs)

text \<open>
  Claim C4. Let the store answer "not found" for a session that was removed. After a
  commit that appended the history row and removed the open session, a second
  \<^verbatim>\<open>MoveSessionToHistory\<close> for the same program makes the read of the open session and
  no other repository call, logs the failed read, and changes nothing else: the store,
  and so the history and the lifetimes, are those the first commit left.
\<close>

theorem second_commit_is_noop:
  assumes law: "\<forall>d d' n. RemoveActiveSession a d n = (None, d') \<longrightarrow>
                  (\<exists>e. GetActiveSession a d' n = Inl e)"
    and get: "GetActiveSession a (db s) name = Inr startTime"
    and add: "fst (AddToSessionHistory h (db s) name startTime (Now T (ticks s))
                (SubSeconds T (Now T (ticks s)) startTime)) = None"
    and rem: "fst (RemoveActiveSession a
                (snd (UpdateLifetime pr
                  (snd (AddToSessionHistory h (db s) name startTime (Now T (ticks s))
                    (SubSeconds T (Now T (ticks s)) startTime)))
                  name (SubSeconds T (Now T (ticks s)) startTime))) name) = None"
  shows "\<exists>e. MoveSessionToHistory T pr a h (MoveSessionToHistory T pr a h s name) name =
           (MoveSessionToHistory T pr a h s name)
             \<lparr>calls := calls (MoveSessionToHistory T pr a h s name) @
                        [GetActiveSessionCall name],
              logger := logger (MoveSessionToHistory T pr a h s name) @ [ErrGetActive e]\<rparr>"
proof -
  let ?s1 = "MoveSessionToHistory T pr a h s name"
  let ?r3 = "RemoveActiveSession a
                (snd (UpdateLifetime pr
                  (snd (AddToSessionHistory h (db s) name startTime (Now T (ticks s))
                    (SubSeconds T (Now T (ticks s)) startTime)))
                  name (SubSeconds T (Now T (ticks s)) startTime))) name"
  have "db ?s1 = snd ?r3"
    using MoveSessionToHistory_db [OF get add] .
  moreover have "?r3 = (None, snd ?r3)"
    using rem by (simp add: prod_eq_iff)
  ultimately obtain e where e: "GetActiveSession a (db ?s1) name = Inl e"
    using law by metis
  have "MoveSessionToHistory T pr a h ?s1 name =
          ?s1\<lparr>calls := calls ?s1 @ [GetActiveSessionCall name],
               logger := logger ?s1 @ [ErrGetActive e]\<rparr>"
    using e by (rule MoveSessionToHistory_not_found)
  then show ?thesis by blast
qed


theorem second_commit_is_noop_witness:
  "GetActiveSession storeActive (db editorWorld) ''editor'' = Inr 5000000000 \<and>
   sessionHistory (db (MoveSessionToHistory tickingClock storePrograms storeActive storeHistory
     editorWorld ''editor'')) = [(''editor'', 5000000000, 10000000000, 5)] \<and>
   lifetimeSeconds (db (MoveSessionToHistory tickingClock storePrograms storeActive storeHistory
     editorWorld ''editor'')) ''editor'' = Some 5 \<and>
   (\<exists>e. MoveSessionToHistory tickingClock storePrograms storeActive storeHistory
          (MoveSessionToHistory tickingClock storePrograms storeActive storeHistory
             editorWorld ''editor'') ''editor'' =
        (MoveSessionToHistory tickingClock storePrograms storeActive storeHistory
             editorWorld ''editor'')
          \<lparr>calls := calls (MoveSessionToHistory tickingClock storePrograms storeActive
                       storeHistory editorWorld ''editor'') @ [GetActiveSessionCall ''editor''],
           logger := logger (MoveSessionToHistory tickingClock storePrograms storeActive
                       storeHistory editorWorld ''editor'') @ [ErrGetActive e]\<rparr>) \<and>
   sessionHistory (db (MoveSessionToHistory tickingClock storePrograms storeActive storeHistory
     (MoveSessionToHistory tickingClock storePrograms storeActive storeHistory
        editorWorld ''editor'') ''editor'')) = [(''editor'', 5000000000, 10000000000, 5)] \<and>
   lifetimeSeconds (db (MoveSessionToHistory tickingClock storePrograms storeActive storeHistory
     (MoveSessionToHistory tickingClock storePrograms storeActive storeHistory
        editorWorld ''editor'') ''editor'')) ''editor'' = Some 5"
proof -
  have law: "\<forall>d d' n. RemoveActiveSession storeActive d n = (None, d') \<longrightarrow>
       (\<exists>e. GetActiveSession storeActive d' n = Inl e)"
    by (auto simp add: storeActive_def split: if_splits)
  have get: "GetActiveSession storeActive (db editorWorld) ''editor'' = Inr 5000000000"
    by (simp add: model_defs)
  have add: "fst (AddToSessionHistory storeHistory (db editorWorld) ''editor'' 5000000000
       (Now tickingClock (ticks editorWorld))
       (SubSeconds tickingClock (Now tickingClock (ticks editorWorld)) 5000000000)) = None"
    by (simp add: model_defs)
  have rem: "fst (RemoveActiveSession storeActive
       (snd (UpdateLifetime storePrograms
          (snd (AddToSessionHistory storeHistory (db editorWorld) ''editor'' 5000000000
             (Now tickingClock (ticks editorWorld))
             (SubSeconds tickingClock (Now tickingClock (ticks editorWorld)) 5000000000)))
          ''editor''
          (SubSeconds tickingClock (Now tickingClock (ticks editorWorld)) 5000000000)))
       ''editor'') = None"
    by (simp add: model_defs)
  have first: "sessionHistory (db (MoveSessionToHistory tickingClock storePrograms storeActive
       storeHistory editorWorld ''editor'')) = [(''editor'', 5000000000, 10000000000, 5)] \<and>
     lifetimeSeconds (db (MoveSessionToHistory tickingClock storePrograms storeActive
       storeHistory editorWorld ''editor'')) ''editor'' = Some 5"
    by (simp add: model_defs)
  from second_commit_is_noop [OF law get add rem]
  obtain e where e: "MoveSessionToHistory tickingClock storePrograms storeActive storeHistory
          (MoveSessionToHistory tickingClock storePrograms storeActive storeHistory
             editorWorld ''editor'') ''editor'' =
        (MoveSessionToHistory tickingClock storePrograms storeActive storeHistory
             editorWorld ''editor'')
          \<lparr>calls := calls (MoveSessionToHistory tickingClock storePrograms storeActive
                       storeHistory editorWorld ''editor'') @ [GetActiveSessionCall ''editor''],
           logger := logger (MoveSessionToHistory tickingClock storePrograms storeActive
                       storeHistory editorWorld ''editor'') @ [ErrGetActive e]\<rparr>"
    by blast
  have second: "db (MoveSessionToHistory tickingClock storePrograms storeActive storeHistory
          (MoveSessionToHistory tickingClock storePrograms storeActive storeHistory
             editorWorld ''editor'') ''editor'') =
        db (MoveSessionToHistory tickingClock storePrograms storeActive storeHistory
             editorWorld ''editor'')"
    by (subst e) simp
  show ?thesis
    using get first e second by (simp only:) blast
qed


subsection \<open>The probes when the operating system refuses\<close>




subsection \<open>Program names and letter case\<close>

text \<open>
  Claim C2, evaluated. \<^verbatim>\<open>EnsureProgram\<close> lower-cases the name it is given;
  \<^verbatim>\<open>CreateSession\<close> and \<^verbatim>\<open>EndSession\<close> use theirs as it is. Seeding \<open>Editor\<close> makes
  the entry \<open>editor\<close>; a start notification for \<open>Editor\<close> then makes a second entry,
  and one for \<open>editor\<close> uses the first: two open sessions, and two rows of open
  sessions, for names that differ in letter case only.
\<close>

theorem names_differing_in_case:
  "Programs (EnsureProgram id (NewSessionManager seededStore) ''Editor'' ''tools'' ''timekeep'')
     ''editor'' = Some (newTracked ''tools'' ''timekeep'') \<and>
   livePIDs (CreateSession tickingClock storeActive
     (CreateSession tickingClock storeActive
        (EnsureProgram id (NewSessionManager seededStore) ''Editor'' ''tools'' ''timekeep'')
        ''Editor'' 100)
     ''editor'' 200) ''Editor'' = {|100|} \<and>
   livePIDs (CreateSession tickingClock storeActive
     (CreateSession tickingClock storeActive
        (EnsureProgram id (NewSessionManager seededStore) ''Editor'' ''tools'' ''timekeep'')
        ''Editor'' 100)
     ''editor'' 200) ''editor'' = {|200|} \<and>
   calls (CreateSession tickingClock storeActive
     (CreateSession tickingClock storeActive
        (EnsureProgram id (NewSessionManager seededStore) ''Editor'' ''tools'' ''timekeep'')
        ''Editor'' 100)
     ''editor'' 200) =
     [CreateActiveSessionCall ''Editor'' 0, CreateActiveSessionCall ''editor'' 1000000000]"
  by (simp add: EnsureProgram_def ToLower_Editor model_defs)

subsection \<open>Pause and Continue\<close>

text \<open>
  What the two arms do to the session manager: \<^verbatim>\<open>Pause\<close> writes a log line and
  nothing else, \<^verbatim>\<open>Continue\<close> writes a log line and hands the session manager to
  \<^verbatim>\<open>RefreshProcessMonitor\<close>. \<^verbatim>\<open>Pause\<close> stops the process monitor; it stops the
  heartbeats only when the WakaTime integration is enabled.
\<close>

lemma onPause_sessions:
  "sessions (onPause s) = (sessions s)\<lparr>logger := logger (sessions s) @ [InfoPausing]\<rparr>"
  by (simp add: onPause_def Let_def)

lemma onPause_monitor: "\<not> monitorRunning (eventCtrl (onPause s))"
  by (simp add: onPause_def Let_def StopProcessMonitor_def StopHeartbeats_def)

lemma onPause_heartbeats:
  "heartbeatsRunning (eventCtrl (onPause s)) \<longleftrightarrow>
     heartbeatsRunning (eventCtrl s) \<and> \<not> WakaTimeEnabled (Config (eventCtrl s))"
  by (simp add: onPause_def Let_def StopProcessMonitor_def StopHeartbeats_def)

lemma onContinue_sessions:
  "sessions (onContinue R s) =
     snd (R (eventCtrl s) ((sessions s)\<lparr>logger := logger (sessions s) @ [InfoResuming]\<rparr>))"
  by (simp add: onContinue_def Let_def)

text \<open>
  Claim C8, evaluated. With the Wakapi integration enabled and the WakaTime integration
  disabled, the start of the service starts the heartbeats and a \<^verbatim>\<open>Pause\<close> request
  leaves them running. It stops the process monitor, and it leaves the map of the
  session manager, the database and the repository calls as they were.
\<close>

theorem pause_leaves_heartbeats_running:
  "heartbeatsRunning (eventCtrl (startHeartbeatsIfEnabled wakapiOnly)) \<and>
   heartbeatsRunning (eventCtrl (onPause (startHeartbeatsIfEnabled wakapiOnly))) \<and>
   \<not> monitorRunning (eventCtrl (onPause (startHeartbeatsIfEnabled wakapiOnly))) \<and>
   Programs (sessions (onPause (startHeartbeatsIfEnabled wakapiOnly))) = Programs editorWorld \<and>
   db (sessions (onPause (startHeartbeatsIfEnabled wakapiOnly))) = db editorWorld \<and>
   calls (sessions (onPause (startHeartbeatsIfEnabled wakapiOnly))) = calls editorWorld"
  by (simp add: onPause_def startHeartbeatsIfEnabled_def wakapiOnly_def Let_def
      StartHeartbeats_def StopHeartbeats_def StopProcessMonitor_def)


end
